theory Spec2Isabelle
  imports Main "HOL-Library.AList" "HOL-Library.Sublist"
begin

section \<open>JavaScript values and field bags\<close>

text \<open>
  The values a record field, a query or a primitive's result can hold. Numbers are
  integers (printed in decimal digits, as \<open>String(n)\<close> does below \<open>1e21\<close>) plus
  \<open>NaN\<close>; an object is the list of its own enumerable properties in the order of
  their creation (integer-like names are not moved to the front). Functions and
  symbols are not represented.
\<close>

datatype jsval =
    JUndef
  | JNull
  | JBool bool
  | JNum int
  | JNaN
  | JStr string
  | JObj "(string \<times> jsval) list"

type_synonym fields = "(string \<times> jsval) list"

text \<open>\<open>!v\<close> is \<open>\<not> truthy v\<close>.\<close>

fun truthy :: "jsval \<Rightarrow> bool" where
  "truthy JUndef = False"
| "truthy JNull = False"
| "truthy (JBool b) = b"
| "truthy (JNum n) = (n \<noteq> 0)"
| "truthy JNaN = False"
| "truthy (JStr s) = (s \<noteq> [])"
| "truthy (JObj kvs) = True"

text \<open>Decimal digits of a number, as \<open>String(n)\<close> prints an integer.\<close>

definition digit_char :: "nat \<Rightarrow> char" where
  "digit_char d = char_of (48 + d)"

function show_nat :: "nat \<Rightarrow> string" where
  "show_nat n = (if n < 10 then [digit_char n] else show_nat (n div 10) @ [digit_char (n mod 10)])"
  by pat_completeness auto
termination
  by (relation "measure id") auto

definition show_int :: "int \<Rightarrow> string" where
  "show_int i = (if i < 0 then CHR ''-'' # show_nat (nat (- i)) else show_nat (nat i))"

text \<open>The property name that \<open>this[key]\<close> uses for a key that is not an object.\<close>

fun to_property_key :: "jsval \<Rightarrow> string" where
  "to_property_key JUndef = ''undefined''"
| "to_property_key JNull = ''null''"
| "to_property_key (JBool b) = (if b then ''true'' else ''false'')"
| "to_property_key (JNum n) = show_int n"
| "to_property_key JNaN = ''NaN''"
| "to_property_key (JStr s) = s"
| "to_property_key (JObj kvs) = ''[object Object]''"

text \<open>
  \<open>BaseModel.set(key, value)\<close> on the bag of own properties of \<open>this\<close>:
  \<^verbatim>\<open>
  set (key, value) {
    if (!key) return
    if (typeof key === 'object') {
      for (const pair of Object.entries(key)) { this.set(...pair) }
      return
    }
    this[key] = value
  }
  \<close>
  \<open>set_prop\<close> is the inner call \<open>this.set(k, v)\<close> on a pair of \<open>Object.entries\<close>,
  whose key is a string: the first test drops the empty string, the second never holds.
  Assignment keeps the position of a property that exists and appends a new one.
  Field names are taken not to collide with the members of the class (\<open>set\<close>,
  \<open>emit\<close>, \<open>isNew\<close>, ...): a record is its bag of data properties, and the methods are
  dispatched statically.
\<close>

definition set_prop :: "string \<Rightarrow> jsval \<Rightarrow> fields \<Rightarrow> fields" where
  "set_prop k v fs = (if k = [] then fs else AList.update k v fs)"

definition set_value :: "jsval \<Rightarrow> jsval \<Rightarrow> fields \<Rightarrow> fields" where
  "set_value key val fs =
     (if \<not> truthy key then fs
      else case key of
        JObj pairs \<Rightarrow> fold (\<lambda>(k, v). set_prop k v) pairs fs
      | _ \<Rightarrow> AList.update (to_property_key key) val fs)"

text \<open>A property read \<open>this[k]\<close>: the own property, or \<open>undefined\<close>.\<close>

definition get_prop :: "fields \<Rightarrow> string \<Rightarrow> jsval" where
  "get_prop fs k = (case map_of fs k of None \<Rightarrow> JUndef | Some v \<Rightarrow> v)"

text \<open>
  \<open>Object.assign(target, ...sources)\<close>: the own enumerable properties of each source
  in turn, later ones overwriting; \<open>null\<close> and \<open>undefined\<close> sources are skipped, a string
  contributes its characters under their indices, other primitives nothing.
\<close>

fun own_entries :: "jsval \<Rightarrow> (string \<times> jsval) list" where
  "own_entries (JObj kvs) = kvs"
| "own_entries (JStr s) = zip (map show_nat [0..<length s]) (map (\<lambda>c. JStr [c]) s)"
| "own_entries v = []"

definition Object_assign :: "fields \<Rightarrow> jsval list \<Rightarrow> fields" where
  "Object_assign target sources =
     fold (\<lambda>src tgt. fold (\<lambda>(k, v). AList.update k v) (own_entries src) tgt) sources target"

section \<open>Errors, memory and the observable trace\<close>

text \<open>
  The three error classes of \<open>index.js\<close>, with the argument of their constructor;
  \<open>DriverError\<close> stands for whatever else a driver or a hook throws.
\<close>

datatype error =
    RecordNotFound
  | NotImplemented string
  | UnsavedModel string
  | DriverError string

text \<open>
  Records are objects: the heap maps a reference to the record's own properties, and
  \<open>new\<close> takes the next free reference. \<open>store\<close> is the state of the driver.
\<close>

record 's mem =
  heap :: "nat \<Rightarrow> fields"
  nextref :: nat
  store :: 's

text \<open>
  What a run lets an observer see, in order: \<open>this.emit(name)\<close> on a record, the call
  of one of its storage primitives, and a pull (\<open>next()\<close>) on the sequence of
  \<open>findIterator\<close>.
\<close>

datatype event =
    Emit nat string
  | Invoke nat string
  | Pull

type_synonym 's world = "'s mem \<times> event list"

text \<open>
  A driver's code runs on the memory and returns or throws; the engine's code runs on
  the memory and the trace. Every \<open>await\<close> is run to completion before the next
  statement (one caller, no other task in between).
\<close>

type_synonym ('s, 'a) coll = "'s mem \<Rightarrow> (error + 'a) \<times> 's mem"
type_synonym ('s, 'a) op = "'s world \<Rightarrow> (error + 'a) \<times> 's world"

definition returnE :: "'a \<Rightarrow> ('s, 'a) op" where
  "returnE x = (\<lambda>w. (Inr x, w))"

definition throwE :: "error \<Rightarrow> ('s, 'a) op" where
  "throwE e = (\<lambda>w. (Inl e, w))"

definition bindE :: "('s, 'a) op \<Rightarrow> ('a \<Rightarrow> ('s, 'b) op) \<Rightarrow> ('s, 'b) op" where
  "bindE f g = (\<lambda>w. case f w of (Inl e, w') \<Rightarrow> (Inl e, w') | (Inr x, w') \<Rightarrow> g x w')"

definition call :: "event \<Rightarrow> ('s, 'a) coll \<Rightarrow> ('s, 'a) op" where
  "call ev c = (\<lambda>(m, t). case c m of (r, m') \<Rightarrow> (r, (m', t @ [ev])))"

section \<open>Lazy sequences\<close>

text \<open>
  An async generator over a state \<open>'w\<close>: \<open>next()\<close> runs the body up to its next
  \<open>yield\<close>, its \<open>return\<close> or its \<open>throw\<close>, with whatever it does to the state. Nothing
  runs when the generator is made. The sequences are finite, as the type has it.
  Closing a generator that is suspended at a \<open>yield\<close> is taken to do nothing.
\<close>

datatype 'w gen = Gen "'w \<Rightarrow> 'w step"
and 'w step = Done 'w | Throw error 'w | Yield nat 'w "'w gen"

fun next_item :: "'w gen \<Rightarrow> 'w \<Rightarrow> 'w step" where
  "next_item (Gen g) w = g w"

text \<open>The sequence of a driver as the engine pulls it: each \<open>next()\<close> is observed.\<close>

primrec traced :: "'s mem gen \<Rightarrow> 's world gen"
  and traced_step :: "'s mem step \<Rightarrow> event list \<Rightarrow> 's world step" where
  "traced (Gen g) = Gen (\<lambda>(m, t). traced_step (g m) (t @ [Pull]))"
| "traced_step (Done m) = (\<lambda>t. Done (m, t))"
| "traced_step (Throw e m) = (\<lambda>t. Throw e (m, t))"
| "traced_step (Yield item m k) = (\<lambda>t. Yield item (m, t) (traced k))"

text \<open>
  \<^verbatim>\<open>const items = []; for await (const item of it) { items.push(item) }; return items\<close>
\<close>

primrec collect :: "'w gen \<Rightarrow> nat list \<Rightarrow> 'w \<Rightarrow> (error + nat list) \<times> 'w"
  and collect_step :: "'w step \<Rightarrow> nat list \<Rightarrow> (error + nat list) \<times> 'w" where
  "collect (Gen g) = (\<lambda>items w. collect_step (g w) items)"
| "collect_step (Done w) = (\<lambda>items. (Inr items, w))"
| "collect_step (Throw e w) = (\<lambda>items. (Inl e, w))"
| "collect_step (Yield item w k) = (\<lambda>items. collect k (items @ [item]) w)"

section \<open>The driver interface and the default base\<close>

text \<open>
  What a subclass overrides: \<open>emit\<close>, the four primitives \<open>_fetch\<close>, \<open>_save\<close>,
  \<open>_update\<close>, \<open>_remove\<close> (each with \<open>this\<close>), and the static \<open>findIterator\<close>.
\<close>

record 's driver =
  emit_impl :: "nat \<Rightarrow> string \<Rightarrow> ('s, unit) coll"
  prim_fetch :: "nat \<Rightarrow> ('s, jsval) coll"
  prim_save :: "nat \<Rightarrow> ('s, jsval) coll"
  prim_update :: "nat \<Rightarrow> ('s, jsval) coll"
  prim_remove :: "nat \<Rightarrow> ('s, unit) coll"
  findIterator :: "jsval \<Rightarrow> 's mem gen"

text \<open>\<open>BaseModel\<close> itself: \<open>emit () {}\<close> and five members that throw \<open>NotImplemented\<close>.\<close>

definition BaseModel :: "'s driver" where
  "BaseModel = \<lparr>
     emit_impl = (\<lambda>this name m. (Inr (), m)),
     prim_fetch = (\<lambda>this m. (Inl (NotImplemented ''model._fetch''), m)),
     prim_save = (\<lambda>this m. (Inl (NotImplemented ''model._save''), m)),
     prim_update = (\<lambda>this m. (Inl (NotImplemented ''model._update''), m)),
     prim_remove = (\<lambda>this m. (Inl (NotImplemented ''model._remove''), m)),
     findIterator = (\<lambda>query. Gen (\<lambda>m. Throw (NotImplemented ''Model.findIterator'') m)) \<rparr>"

section \<open>Instance methods\<close>

text \<open>
  The methods of an instance take \<open>this\<close> as a reference and return it. \<open>set\<close>,
  \<open>update\<close> and \<open>remove\<close> are written \<open>set_m\<close>, \<open>update_m\<close> and \<open>remove_m\<close>;
  the static \<open>find\<close>, \<open>update\<close>, \<open>remove\<close> and \<open>count\<close> of the next section are
  written \<open>find_s\<close>, \<open>update_s\<close>, \<open>remove_s\<close> and \<open>count_s\<close>.
\<close>

definition fields_of :: "nat \<Rightarrow> 's world \<Rightarrow> fields" where
  "fields_of this w = heap (fst w) this"

definition isNew :: "nat \<Rightarrow> 's world \<Rightarrow> bool" where
  "isNew this w = (\<not> truthy (get_prop (fields_of this w) ''id''))"

definition set_m :: "nat \<Rightarrow> jsval \<Rightarrow> jsval \<Rightarrow> ('s, unit) op" where
  "set_m this key val =
     (\<lambda>(m, t). (Inr (), (m\<lparr>heap := (heap m)(this := set_value key val (heap m this))\<rparr>, t)))"

definition emit :: "'s driver \<Rightarrow> nat \<Rightarrow> string \<Rightarrow> ('s, unit) op" where
  "emit D this name = call (Emit this name) (emit_impl D this name)"

definition fetch :: "'s driver \<Rightarrow> nat \<Rightarrow> ('s, nat) op" where
  "fetch D this =
     (\<lambda>w. if isNew this w then throwE (UnsavedModel ''fetch'') w
          else bindE (emit D this ''beforeFetch'') (\<lambda>_.
               bindE (call (Invoke this ''_fetch'') (prim_fetch D this)) (\<lambda>r.
               bindE (set_m this r JUndef) (\<lambda>_.
               bindE (emit D this ''afterFetch'') (\<lambda>_.
               returnE this)))) w)"

definition update_m :: "'s driver \<Rightarrow> nat \<Rightarrow> jsval \<Rightarrow> ('s, nat) op" where
  "update_m D this data =
     (\<lambda>w. if isNew this w then throwE (UnsavedModel ''update'') w
          else bindE (if truthy data then set_m this data JUndef else returnE ()) (\<lambda>_.
               bindE (emit D this ''validate'') (\<lambda>_.
               bindE (emit D this ''beforeUpdate'') (\<lambda>_.
               bindE (emit D this ''beforeSave'') (\<lambda>_.
               bindE (call (Invoke this ''_update'') (prim_update D this)) (\<lambda>r.
               bindE (set_m this r JUndef) (\<lambda>_.
               bindE (emit D this ''afterSave'') (\<lambda>_.
               bindE (emit D this ''afterUpdate'') (\<lambda>_.
               returnE this)))))))) w)"

definition save :: "'s driver \<Rightarrow> nat \<Rightarrow> ('s, nat) op" where
  "save D this =
     (\<lambda>w. if \<not> isNew this w then update_m D this JUndef w
          else bindE (emit D this ''validate'') (\<lambda>_.
               bindE (emit D this ''beforeCreate'') (\<lambda>_.
               bindE (emit D this ''beforeSave'') (\<lambda>_.
               bindE (call (Invoke this ''_save'') (prim_save D this)) (\<lambda>r.
               bindE (set_m this r JUndef) (\<lambda>_.
               bindE (emit D this ''afterSave'') (\<lambda>_.
               bindE (emit D this ''afterCreate'') (\<lambda>_.
               returnE this))))))) w)"

definition remove_m :: "'s driver \<Rightarrow> nat \<Rightarrow> ('s, nat) op" where
  "remove_m D this =
     (\<lambda>w. if isNew this w then throwE (UnsavedModel ''remove'') w
          else bindE (emit D this ''beforeRemove'') (\<lambda>_.
               bindE (call (Invoke this ''_remove'') (prim_remove D this)) (\<lambda>_.
               bindE (set_m this (JStr ''id'') JUndef) (\<lambda>_.
               bindE (emit D this ''afterRemove'') (\<lambda>_.
               returnE this)))) w)"

section \<open>Static methods\<close>

text \<open>\<open>new this(data)\<close>: a fresh object, then the constructor's \<open>this.set(data)\<close>.\<close>

definition new_record :: "jsval \<Rightarrow> 's mem \<Rightarrow> nat \<times> 's mem" where
  "new_record data m =
     (nextref m,
      m\<lparr>heap := (heap m)(nextref m := set_value data JUndef []),
        nextref := Suc (nextref m)\<rparr>)"

definition build :: "jsval \<Rightarrow> ('s, nat) op" where
  "build data = (\<lambda>(m, t). case new_record data m of (r, m') \<Rightarrow> (Inr r, (m', t)))"

definition create :: "'s driver \<Rightarrow> jsval \<Rightarrow> ('s, nat) op" where
  "create D data = bindE (build data) (save D)"

text \<open>
  \<^verbatim>\<open>for await (const model of this.findIterator(query)) { return model }\<close>:
  one \<open>next()\<close>; the result is \<open>undefined\<close> (\<open>None\<close>) when the sequence is done.
\<close>

definition findOne :: "'s driver \<Rightarrow> jsval \<Rightarrow> ('s, nat option) op" where
  "findOne D query =
     (\<lambda>w. case next_item (traced (findIterator D query)) w of
            Done w' \<Rightarrow> (Inr None, w')
          | Throw e w' \<Rightarrow> (Inl e, w')
          | Yield model w' k \<Rightarrow> (Inr (Some model), w'))"



definition find_s :: "'s driver \<Rightarrow> jsval \<Rightarrow> ('s, nat list) op" where
  "find_s D query = collect (traced (findIterator D query)) []"


text \<open>
  \<^verbatim>\<open>for await (const item of this.findIterator(query)) { yield await item.update(data) }\<close>
\<close>

primrec updateIterator_of :: "'s driver \<Rightarrow> jsval \<Rightarrow> 's world gen \<Rightarrow> 's world gen"
  and updateIterator_step :: "'s driver \<Rightarrow> jsval \<Rightarrow> 's world step \<Rightarrow> 's world step" where
  "updateIterator_of D data (Gen g) = Gen (\<lambda>w. updateIterator_step D data (g w))"
| "updateIterator_step D data (Done w) = Done w"
| "updateIterator_step D data (Throw e w) = Throw e w"
| "updateIterator_step D data (Yield item w k) =
     (case update_m D item data w of
        (Inl e, w') \<Rightarrow> Throw e w'
      | (Inr r, w') \<Rightarrow> Yield r w' (updateIterator_of D data k))"

definition updateIterator :: "'s driver \<Rightarrow> jsval \<Rightarrow> jsval \<Rightarrow> 's world gen" where
  "updateIterator D query data = updateIterator_of D data (traced (findIterator D query))"

definition update_s :: "'s driver \<Rightarrow> jsval \<Rightarrow> jsval \<Rightarrow> ('s, nat list) op" where
  "update_s D query data = collect (updateIterator D query data) []"



text \<open>
  \<^verbatim>\<open>for await (const item of this.findIterator(query)) { yield await item.remove() }\<close>
\<close>

primrec removeIterator_of :: "'s driver \<Rightarrow> 's world gen \<Rightarrow> 's world gen"
  and removeIterator_step :: "'s driver \<Rightarrow> 's world step \<Rightarrow> 's world step" where
  "removeIterator_of D (Gen g) = Gen (\<lambda>w. removeIterator_step D (g w))"
| "removeIterator_step D (Done w) = Done w"
| "removeIterator_step D (Throw e w) = Throw e w"
| "removeIterator_step D (Yield item w k) =
     (case remove_m D item w of
        (Inl e, w') \<Rightarrow> Throw e w'
      | (Inr r, w') \<Rightarrow> Yield r w' (removeIterator_of D k))"

definition removeIterator :: "'s driver \<Rightarrow> jsval \<Rightarrow> 's world gen" where
  "removeIterator D query = removeIterator_of D (traced (findIterator D query))"

definition remove_s :: "'s driver \<Rightarrow> jsval \<Rightarrow> ('s, nat list) op" where
  "remove_s D query = collect (removeIterator D query) []"



text \<open>
  \<^verbatim>\<open>while ((next = await it.next()) && !next.done) { count++ }\<close>
\<close>

primrec count_loop :: "'w gen \<Rightarrow> nat \<Rightarrow> 'w \<Rightarrow> (error + nat) \<times> 'w"
  and count_step :: "'w step \<Rightarrow> nat \<Rightarrow> (error + nat) \<times> 'w" where
  "count_loop (Gen g) = (\<lambda>n w. count_step (g w) n)"
| "count_step (Done w) = (\<lambda>n. (Inr n, w))"
| "count_step (Throw e w) = (\<lambda>n. (Inl e, w))"
| "count_step (Yield item w k) = (\<lambda>n. count_loop k (Suc n) w)"

definition count_s :: "'s driver \<Rightarrow> jsval \<Rightarrow> ('s, nat) op" where
  "count_s D query = count_loop (traced (findIterator D query)) 0"

section \<open>The driver of the test suite\<close>

text \<open>
  The class \<open>Model\<close> that the repository's tests run the base on: an in-memory table
  \<open>Model.data\<close> of rows and the log \<open>Model.hooks\<close> that its \<open>emit\<close> appends to.
\<close>

record tstore =
  Model_data :: "fields list"
  Model_hooks :: "string list"

text \<open>
  \<open>a === b\<close> on the values of the model: \<open>NaN\<close> equals nothing, and two object
  values are never taken to be the same object.
\<close>

fun strict_eq :: "jsval \<Rightarrow> jsval \<Rightarrow> bool" where
  "strict_eq JNaN b = False"
| "strict_eq (JObj kvs) b = False"
| "strict_eq a b = (a = b)"

text \<open>\<open>Model.data.filter(v => v.id === this.id)[0]\<close>\<close>

definition row_of :: "fields list \<Rightarrow> jsval \<Rightarrow> fields option" where
  "row_of rows ident = List.find (\<lambda>v. strict_eq (get_prop v ''id'') ident) rows"

definition Model_emit :: "nat \<Rightarrow> string \<Rightarrow> (tstore, unit) coll" where
  "Model_emit this ev m =
     (Inr (), m\<lparr>store := (store m)\<lparr>Model_hooks := Model_hooks (store m) @ [ev]\<rparr>\<rparr>)"

definition Model_fetch :: "nat \<Rightarrow> (tstore, jsval) coll" where
  "Model_fetch this m =
     (case row_of (Model_data (store m)) (get_prop (heap m this) ''id'') of
        None \<Rightarrow> (Inr JUndef, m)
      | Some row \<Rightarrow> (Inr (JObj row), m))"

text \<open>
  \<^verbatim>\<open>const data = { id: length + 1, ...this }; Model.data.push(data); return data\<close>
\<close>

definition Model_save :: "nat \<Rightarrow> (tstore, jsval) coll" where
  "Model_save this m =
     (let row = Object_assign [(''id'', JNum (int (length (Model_data (store m))) + 1))]
                  [JObj (heap m this)]
      in (Inr (JObj row), m\<lparr>store := (store m)\<lparr>Model_data := Model_data (store m) @ [row]\<rparr>\<rparr>))"

text \<open>
  \<^verbatim>\<open>Object.assign(record[0], this); return this._fetch()\<close>: the first row with the
  record's id takes the record's fields; with no such row, \<open>Object.assign\<close> throws.
\<close>

fun assign_first :: "jsval \<Rightarrow> fields \<Rightarrow> fields list \<Rightarrow> fields list" where
  "assign_first ident fs [] = []"
| "assign_first ident fs (row # rows) =
     (if strict_eq (get_prop row ''id'') ident then Object_assign row [JObj fs] # rows
      else row # assign_first ident fs rows)"

definition Model_update :: "nat \<Rightarrow> (tstore, jsval) coll" where
  "Model_update this m =
     (case row_of (Model_data (store m)) (get_prop (heap m this) ''id'') of
        None \<Rightarrow> (Inl (DriverError ''TypeError''), m)
      | Some row \<Rightarrow>
          Model_fetch this
            (m\<lparr>store := (store m)\<lparr>Model_data :=
               assign_first (get_prop (heap m this) ''id'') (heap m this)
                 (Model_data (store m))\<rparr>\<rparr>))"

definition Model_remove :: "nat \<Rightarrow> (tstore, unit) coll" where
  "Model_remove this m =
     (Inr (), m\<lparr>store := (store m)\<lparr>Model_data :=
        filter (\<lambda>v. \<not> strict_eq (get_prop v ''id'') (get_prop (heap m this) ''id''))
          (Model_data (store m))\<rparr>\<rparr>)"

text \<open>
  \<^verbatim>\<open>
  const items = query ? Model.data.filter(v => isSubset(v, query)) : Model.data
  for (const item of items) { yield this.build(item) }
  \<close>
  The rows are chosen when the first \<open>next()\<close> runs; each later \<open>next()\<close> builds one
  record. \<open>isSubset\<close> comes from the package \<open>is-subset\<close> and is a parameter here.
\<close>

fun yield_built :: "fields list \<Rightarrow> 's mem \<Rightarrow> 's mem step" where
  "yield_built [] m = Done m"
| "yield_built (item # items) m =
     (case new_record (JObj item) m of (r, m') \<Rightarrow> Yield r m' (Gen (yield_built items)))"

definition Model_findIterator :: "(fields \<Rightarrow> jsval \<Rightarrow> bool) \<Rightarrow> jsval \<Rightarrow> tstore mem gen" where
  "Model_findIterator isSubset query =
     Gen (\<lambda>m. yield_built
            (if truthy query then filter (\<lambda>v. isSubset v query) (Model_data (store m))
             else Model_data (store m)) m)"

definition Model :: "(fields \<Rightarrow> jsval \<Rightarrow> bool) \<Rightarrow> tstore driver" where
  "Model isSubset = \<lparr>
     emit_impl = Model_emit,
     prim_fetch = Model_fetch,
     prim_save = Model_save,
     prim_update = Model_update,
     prim_remove = Model_remove,
     findIterator = Model_findIterator isSubset \<rparr>"

text \<open>
  The instance of \<open>isSubset\<close> for the flat rows and queries of the tests: every entry
  of the query is an entry of the row.
\<close>

definition entries_subset :: "fields \<Rightarrow> jsval \<Rightarrow> bool" where
  "entries_subset row query =
     list_all (\<lambda>(k, v). map_of row k = Some v) (own_entries query)"

text \<open>\<open>Model.reset(data)\<close> with no record built yet.\<close>

definition reset :: "fields list \<Rightarrow> tstore world" where
  "reset rows =
     (\<lparr>heap = (\<lambda>r. []), nextref = 0,
       store = \<lparr>Model_data = rows, Model_hooks = []\<rparr>\<rparr>, [])"

section \<open>What is asked of a driver\<close>



section \<open>The hook sequences\<close>

definition create_events :: "nat \<Rightarrow> event list" where
  "create_events this =
     [Emit this ''validate'', Emit this ''beforeCreate'', Emit this ''beforeSave'',
      Invoke this ''_save'', Emit this ''afterSave'', Emit this ''afterCreate'']"

definition update_events :: "nat \<Rightarrow> event list" where
  "update_events this =
     [Emit this ''validate'', Emit this ''beforeUpdate'', Emit this ''beforeSave'',
      Invoke this ''_update'', Emit this ''afterSave'', Emit this ''afterUpdate'']"

definition remove_events :: "nat \<Rightarrow> event list" where
  "remove_events this =
     [Emit this ''beforeRemove'', Invoke this ''_remove'', Emit this ''afterRemove'']"

text \<open>The names of the hooks in a trace, in order.\<close>

fun hooks_of :: "event list \<Rightarrow> string list" where
  "hooks_of [] = []"
| "hooks_of (Emit r name # evs) = name # hooks_of evs"
| "hooks_of (ev # evs) = hooks_of evs"



text \<open>
  The record of the tests' \<open>methods\<close>, \<open>new Model({ name: 'a' })\<close> over an empty
  table; the same after \<open>save()\<close>; and the tables of the scenarios
  \<open>[{id:1,x:1},{id:2,x:1}]\<close> and \<open>[{id:1},{id:2},{id:3}]\<close>.
\<close>

definition world_a :: "tstore world" where
  "world_a = snd (build (JObj [(''name'', JStr ''a'')]) (reset []))"

definition world_saved :: "tstore world" where
  "world_saved = snd (save (Model entries_subset) 0 world_a)"

definition two_rows :: "fields list" where
  "two_rows = [[(''id'', JNum 1), (''x'', JNum 1)], [(''id'', JNum 2), (''x'', JNum 1)]]"





text \<open>
  The record of the tests' \<open>placeholders\<close> on the base with nothing overridden:
  \<open>build({})\<close>, and then \<open>model.id = 1\<close>.
\<close>

definition placeholder :: "unit world" where
  "placeholder = snd (build (JObj []) (\<lparr>heap = (\<lambda>r. []), nextref = 0, store = ()\<rparr>, []))"

definition placeholder_id :: "unit world" where
  "placeholder_id = snd (set_m 0 (JStr ''id'') (JNum 1) placeholder)"

section \<open>Notions used to state the properties\<close>

text \<open>The state that a \<open>next()\<close> leaves.\<close>

fun state_of :: "'w step \<Rightarrow> 'w" where
  "state_of (Done w) = w"
| "state_of (Throw e w) = w"
| "state_of (Yield item w k) = w"


text \<open>
  By the words of the specification, a bulk operation: each record that the sequence
  yields goes through the operation \<open>f\<close> on it, in the order of the sequence; the
  next record is pulled once the operation on the previous one has completed, and a
  failure ends the run.
\<close>

primrec each_in_turn ::
    "(nat \<Rightarrow> 'w \<Rightarrow> (error + nat) \<times> 'w) \<Rightarrow> 'w gen \<Rightarrow> nat list \<Rightarrow> 'w \<Rightarrow> (error + nat list) \<times> 'w"
  and each_in_turn_step ::
    "(nat \<Rightarrow> 'w \<Rightarrow> (error + nat) \<times> 'w) \<Rightarrow> 'w step \<Rightarrow> nat list \<Rightarrow> (error + nat list) \<times> 'w" where
  "each_in_turn f (Gen g) = (\<lambda>acc w. each_in_turn_step f (g w) acc)"
| "each_in_turn_step f (Done w) = (\<lambda>acc. (Inr acc, w))"
| "each_in_turn_step f (Throw e w) = (\<lambda>acc. (Inl e, w))"
| "each_in_turn_step f (Yield item w k) =
     (\<lambda>acc. case f item w of
        (Inl e, w') \<Rightarrow> (Inl e, w')
      | (Inr r, w') \<Rightarrow> each_in_turn f k (acc @ [r]) w')"

section \<open>Running the engine step by step\<close>

lemma bindE_Inr:
  "bindE f g w = (Inr r, w') \<longleftrightarrow> (\<exists>x w1. f w = (Inr x, w1) \<and> g x w1 = (Inr r, w'))"
  by (auto simp: bindE_def split: prod.splits sum.splits)

lemma call_Inr:
  "call ev c w = (Inr r, w') \<longleftrightarrow> (\<exists>m'. c (fst w) = (Inr r, m') \<and> w' = (m', snd w @ [ev]))"
  by (cases w) (auto simp: call_def split: prod.splits)

lemma emit_Inr:
  "emit D this name w = (Inr u, w') \<longleftrightarrow>
     (\<exists>m'. emit_impl D this name (fst w) = (Inr (), m') \<and> w' = (m', snd w @ [Emit this name]))"
  by (simp add: emit_def call_Inr)

lemma set_m_Inr:
  "set_m this k v w = (Inr u, w') \<longleftrightarrow>
     w' = ((fst w)\<lparr>heap := (heap (fst w))(this := set_value k v (heap (fst w) this))\<rparr>, snd w)"
  by (cases w) (auto simp: set_m_def)

lemma returnE_Inr: "returnE x w = (Inr r, w') \<longleftrightarrow> r = x \<and> w' = w"
  by (auto simp: returnE_def)

lemmas run_simps = bindE_Inr emit_Inr call_Inr set_m_Inr returnE_Inr


section \<open>The record as a field bag\<close>

lemma set_value_falsy: "\<not> truthy k \<Longrightarrow> set_value k v fs = fs"
  by (simp add: set_value_def)

lemma set_m_falsy: "\<not> truthy k \<Longrightarrow> set_m this k v w = (Inr (), w)"
  by (cases w) (simp add: set_m_def set_value_falsy)

text \<open>
  C10. \<open>set(k, v)\<close> with a falsy key \<open>k\<close> leaves the fields of the record, and
  everything else, as they were; \<open>undefined\<close>, \<open>null\<close>, the empty string, \<open>0\<close> and
  \<open>false\<close> are such keys. So \<open>set()\<close> with no argument, which is also the merge of a
  primitive's result \<open>undefined\<close>, changes nothing, and a record constructed with no
  data has no field.
\<close>

theorem set_falsy_key_noop:
  "(\<not> truthy k \<longrightarrow> set_value k v fs = fs \<and> set_m this k v w = (Inr (), w))
   \<and> \<not> truthy JUndef \<and> \<not> truthy JNull \<and> \<not> truthy (JStr []) \<and> \<not> truthy (JNum 0)
   \<and> \<not> truthy (JBool False)
   \<and> set_m this JUndef JUndef w = (Inr (), w)
   \<and> fields_of (nextref m) (snd (build JUndef (m, t))) = []"
  by (simp add: set_value_falsy set_m_falsy build_def new_record_def fields_of_def)

theorem set_falsy_key_noop_witness:
  "\<not> truthy (JNum 0)
   \<and> set_value (JNum 0) (JStr ''v'') [(''name'', JStr ''a'')] = [(''name'', JStr ''a'')]
   \<and> set_m 0 (JNum 0) (JStr ''v'') (reset []) = (Inr (), reset [])"
  using set_falsy_key_noop [of "JNum 0" "JStr ''v''" "[(''name'', JStr ''a'')]" 0 "reset []"
      "fst (reset [])" "[]"]
  by simp

section \<open>Operations on an unsaved record\<close>

text \<open>
  C2. On a record in the New state, \<open>fetch()\<close>, \<open>update(patch)\<close> and \<open>remove()\<close>
  throw \<open>UnsavedModel\<close> with the name of the action, and the memory and the trace
  are what they were: no hook is emitted, no primitive is called, no field changes,
  and the patch is not merged.
\<close>

theorem unsaved_record_rejected:
  assumes "isNew this w"
  shows "fetch D this w = (Inl (UnsavedModel ''fetch''), w)
       \<and> update_m D this patch w = (Inl (UnsavedModel ''update''), w)
       \<and> remove_m D this w = (Inl (UnsavedModel ''remove''), w)"
  using assms by (simp add: fetch_def update_m_def remove_m_def throwE_def)

theorem unsaved_record_rejected_witness:
  "isNew 0 (snd (build (JObj [(''name'', JStr ''a'')]) (reset [])))
   \<and> update_m (Model entries_subset) 0 (JObj [(''name'', JStr ''b'')])
         (snd (build (JObj [(''name'', JStr ''a'')]) (reset []))) =
       (Inl (UnsavedModel ''update''), snd (build (JObj [(''name'', JStr ''a'')]) (reset [])))
   \<and> fetch (Model entries_subset) 0 (snd (build (JObj [(''name'', JStr ''a'')]) (reset []))) =
       (Inl (UnsavedModel ''fetch''), snd (build (JObj [(''name'', JStr ''a'')]) (reset [])))
   \<and> remove_m (Model entries_subset) 0 (snd (build (JObj [(''name'', JStr ''a'')]) (reset []))) =
       (Inl (UnsavedModel ''remove''), snd (build (JObj [(''name'', JStr ''a'')]) (reset [])))"
proof -
  have new: "isNew 0 (snd (build (JObj [(''name'', JStr ''a'')]) (reset [])))"
    by (simp add: isNew_def fields_of_def build_def new_record_def reset_def set_value_def
        set_prop_def get_prop_def)
  show ?thesis
    using new unsaved_record_rejected [OF new, of "Model entries_subset" "JObj [(''name'', JStr ''b'')]"]
    by simp
qed

section \<open>Evaluation on concrete states\<close>

lemmas engine_defs = save_def update_m_def remove_m_def fetch_def bindE_def emit_def call_def
  set_m_def returnE_def throwE_def isNew_def fields_of_def build_def new_record_def create_def

lemmas bag_defs = set_value_def set_prop_def get_prop_def Object_assign_def

lemmas Model_defs = Model_def Model_emit_def Model_save_def Model_fetch_def Model_update_def
  Model_remove_def Model_findIterator_def row_of_def entries_subset_def reset_def Let_def

section \<open>The lifecycle of one record\<close>


lemma update_success:
  assumes "update_m D this data w = (Inr r, w')"
  shows "r = this \<and> snd w' = snd w @ update_events this \<and> \<not> isNew this w"
  using assms
  by (auto simp: update_m_def throwE_def run_simps update_events_def split: if_splits)

lemma remove_success:
  assumes "remove_m D this w = (Inr r, w')"
  shows "r = this \<and> snd w' = snd w @ remove_events this \<and> \<not> isNew this w"
  using assms
  by (auto simp: remove_m_def throwE_def run_simps remove_events_def split: if_splits)




















lemma world_a_eq:
  "world_a = (\<lparr>heap = (\<lambda>r. [])(0 := [(''name'', JStr ''a'')]), nextref = 1,
       store = \<lparr>Model_data = [], Model_hooks = []\<rparr>\<rparr>, [])"
  by (simp add: world_a_def build_def new_record_def reset_def bag_defs)

lemma save_world_a:
  "save (Model entries_subset) 0 world_a =
     (Inr 0, (\<lparr>heap = (\<lambda>r. [])(0 := [(''name'', JStr ''a''), (''id'', JNum 1)]), nextref = 1,
        store = \<lparr>Model_data = [[(''id'', JNum 1), (''name'', JStr ''a'')]],
          Model_hooks = [''validate'', ''beforeCreate'', ''beforeSave'', ''afterSave'',
            ''afterCreate'']\<rparr>\<rparr>,
        create_events 0))"
  by (simp add: world_a_eq engine_defs bag_defs Model_defs create_events_def)

lemma world_saved_eq:
  "world_saved =
     (\<lparr>heap = (\<lambda>r. [])(0 := [(''name'', JStr ''a''), (''id'', JNum 1)]), nextref = 1,
        store = \<lparr>Model_data = [[(''id'', JNum 1), (''name'', JStr ''a'')]],
          Model_hooks = [''validate'', ''beforeCreate'', ''beforeSave'', ''afterSave'',
            ''afterCreate'']\<rparr>\<rparr>,
        create_events 0)"
  by (simp add: world_saved_def save_world_a)





section \<open>Merging objects into a field bag\<close>








lemma restrict_map_add: "(f ++ g) |` A = (f |` A) ++ (g |` A)"
  by (auto simp: fun_eq_iff map_add_def restrict_map_def split: option.splits)



section \<open>Finding one record, and creating one\<close>



lemma traced_step_cases:
  "traced_step s t = (case s of Done m \<Rightarrow> Done (m, t) | Throw e m \<Rightarrow> Throw e (m, t)
                      | Yield item m k \<Rightarrow> Yield item (m, t) (traced k))"
  by (cases s) simp_all

lemma next_item_traced:
  "next_item (traced g) (m, t) =
     (case next_item g m of Done m' \<Rightarrow> Done (m', t @ [Pull]) | Throw e m' \<Rightarrow> Throw e (m', t @ [Pull])
      | Yield item m' k \<Rightarrow> Yield item (m', t @ [Pull]) (traced k))"
  by (cases g) (simp add: traced_step_cases)

lemma findOne_cases:
  "findOne D query (m, t) =
     (case next_item (findIterator D query) m of
        Done m' \<Rightarrow> (Inr None, (m', t @ [Pull]))
      | Throw e m' \<Rightarrow> (Inl e, (m', t @ [Pull]))
      | Yield model m' k \<Rightarrow> (Inr (Some model), (m', t @ [Pull])))"
  by (simp add: findOne_def next_item_traced split: step.splits)







section \<open>Removing a record\<close>













text \<open>
  With the driver of the tests the second \<open>save()\<close> also takes the create path and
  stores a row, but \<open>{ id: length + 1, ...this }\<close> lets the record's own
  \<open>id: undefined\<close> win: the row and the record keep \<open>undefined\<close>, and the record
  stays New. This is why the last part of the property asks \<open>_save\<close> for an id.
\<close>

lemma Model_resave_stays_new:
  "fst (save (Model entries_subset) 0
          (snd (remove_m (Model entries_subset) 0 world_saved))) = Inr 0
   \<and> isNew 0 (snd (save (Model entries_subset) 0
          (snd (remove_m (Model entries_subset) 0 world_saved))))"
proof -
  have "remove_m (Model entries_subset) 0 world_saved =
     (Inr 0, (\<lparr>heap = (\<lambda>r. [])(0 := [(''name'', JStr ''a''), (''id'', JUndef)]), nextref = 1,
        store = \<lparr>Model_data = [],
          Model_hooks = [''validate'', ''beforeCreate'', ''beforeSave'', ''afterSave'',
            ''afterCreate'', ''beforeRemove'', ''afterRemove'']\<rparr>\<rparr>,
        create_events 0 @ remove_events 0))"
    by (simp add: world_saved_eq engine_defs bag_defs Model_defs create_events_def
        remove_events_def)
  then show ?thesis
    by (simp add: engine_defs bag_defs Model_defs)
qed

section \<open>Create or update, find or create\<close>













section \<open>Bulk operations\<close>

lemma collect_updateIterator:
  "collect (updateIterator_of D data g) acc w = each_in_turn (\<lambda>item. update_m D item data) g acc w"
  and "collect_step (updateIterator_step D data s) acc =
         each_in_turn_step (\<lambda>item. update_m D item data) s acc"
  by (induction g and s arbitrary: acc w and acc) (auto split: prod.splits sum.splits)

lemma collect_removeIterator:
  "collect (removeIterator_of D g) acc w = each_in_turn (remove_m D) g acc w"
  and "collect_step (removeIterator_step D s) acc = each_in_turn_step (remove_m D) s acc"
  by (induction g and s arbitrary: acc w and acc) (auto split: prod.splits sum.splits)

lemma collect_each_in_turn:
  fixes g :: "'w gen" and s :: "'w step"
  shows "collect g acc w = each_in_turn (\<lambda>item w. (Inr item, w)) g acc w"
    and "collect_step s acc = each_in_turn_step (\<lambda>item w. (Inr item, w)) s acc"
  by (induction g and s arbitrary: acc w and acc) auto

lemma concat_pull_shift:
  "Pull # concat (map (\<lambda>r. evs r @ [Pull]) xs) = concat (map (\<lambda>r. Pull # evs r) xs) @ [Pull]"
  by (induction xs) auto

lemma each_in_turn_trace_aux:
  fixes f :: "nat \<Rightarrow> ('s, nat) op"
  assumes f: "\<And>item w r w'. f item w = (Inr r, w') \<Longrightarrow> r = item \<and> snd w' = snd w @ evs item"
  shows "each_in_turn f (traced g) acc (m, t) = (Inr rs, w') \<Longrightarrow>
           \<exists>new. rs = acc @ new \<and> snd w' = t @ Pull # concat (map (\<lambda>r. evs r @ [Pull]) new)"
    and "each_in_turn_step f (traced_step s t) acc = (Inr rs, w') \<Longrightarrow>
           \<exists>new. rs = acc @ new \<and> snd w' = t @ concat (map (\<lambda>r. evs r @ [Pull]) new)"
proof (induction g and s arbitrary: acc m t rs w' and acc t rs w')
  case (Gen g)
  from Gen.prems have "each_in_turn_step f (traced_step (g m) (t @ [Pull])) acc = (Inr rs, w')"
    by simp
  from Gen.IH [OF _ this] show ?case by auto
next
  case (Done m)
  then show ?case by auto
next
  case (Throw e m)
  then show ?case by auto
next
  case (Yield item m k)
  from Yield.prems obtain r w1 where
    r: "f item (m, t) = (Inr r, w1)" and
    rest: "each_in_turn f (traced k) (acc @ [r]) w1 = (Inr rs, w')"
    by (auto split: prod.splits sum.splits)
  from f [OF r] have r': "r = item" "snd w1 = t @ evs item" by auto
  obtain m1 t1 where w1: "w1 = (m1, t1)" by (cases w1)
  from Yield.IH [OF rest [unfolded w1]] obtain new where
    "rs = (acc @ [r]) @ new" "snd w' = t1 @ Pull # concat (map (\<lambda>r. evs r @ [Pull]) new)"
    by blast
  then have "rs = acc @ (r # new) \<and> snd w' = t @ concat (map (\<lambda>r. evs r @ [Pull]) (r # new))"
    using r' w1 by simp
  then show ?case by blast
qed

lemma each_in_turn_trace:
  fixes f :: "nat \<Rightarrow> ('s, nat) op"
  assumes "\<And>item w r w'. f item w = (Inr r, w') \<Longrightarrow> r = item \<and> snd w' = snd w @ evs item"
    and "each_in_turn f (traced g) [] w = (Inr rs, w')"
  shows "snd w' = snd w @ concat (map (\<lambda>r. Pull # evs r) rs) @ [Pull]"
proof -
  obtain m t where w: "w = (m, t)" by (cases w)
  from each_in_turn_trace_aux(1) [of f evs g "[]" m t rs w'] assms w
  have "snd w' = t @ Pull # concat (map (\<lambda>r. evs r @ [Pull]) rs)" by auto
  then show ?thesis using w by (simp add: concat_pull_shift)
qed

lemma hooks_of_append: "hooks_of (xs @ ys) = hooks_of xs @ hooks_of ys"
  by (induction xs rule: hooks_of.induct) auto

lemma hooks_of_update_run:
  "hooks_of (concat (map (\<lambda>r. Pull # update_events r) rs)) =
     concat (map (\<lambda>r. [''validate'', ''beforeUpdate'', ''beforeSave'', ''afterSave'',
       ''afterUpdate'']) rs)"
  by (induction rs) (simp_all add: update_events_def hooks_of_append)

lemma hooks_of_remove_run:
  "hooks_of (concat (map (\<lambda>r. Pull # remove_events r) rs)) =
     concat (map (\<lambda>r. [''beforeRemove'', ''afterRemove'']) rs)"
  by (induction rs) (simp_all add: remove_events_def hooks_of_append)

lemma update_s_each: "update_s D query data =
    each_in_turn (\<lambda>item. update_m D item data) (traced (findIterator D query)) []"
  by (simp add: update_s_def updateIterator_def collect_updateIterator fun_eq_iff)

lemma remove_s_each: "remove_s D query =
    each_in_turn (remove_m D) (traced (findIterator D query)) []"
  by (simp add: remove_s_def removeIterator_def collect_removeIterator fun_eq_iff)

lemma update_s_trace:
  assumes "update_s D query data w = (Inr rs, w')"
  shows "snd w' = snd w @ concat (map (\<lambda>r. Pull # update_events r) rs) @ [Pull]"
proof (rule each_in_turn_trace)
  show "each_in_turn (\<lambda>item. update_m D item data) (traced (findIterator D query)) [] w = (Inr rs, w')"
    using assms by (simp add: update_s_each)
next
  fix item w r w'
  assume "update_m D item data w = (Inr r, w')"
  then show "r = item \<and> snd w' = snd w @ update_events item"
    using update_success by blast
qed

lemma remove_s_trace:
  assumes "remove_s D query w = (Inr rs, w')"
  shows "snd w' = snd w @ concat (map (\<lambda>r. Pull # remove_events r) rs) @ [Pull]"
proof (rule each_in_turn_trace)
  show "each_in_turn (remove_m D) (traced (findIterator D query)) [] w = (Inr rs, w')"
    using assms by (simp add: remove_s_each)
next
  fix item w r w'
  assume "remove_m D item w = (Inr r, w')"
  then show "r = item \<and> snd w' = snd w @ remove_events item"
    using remove_success by blast
qed

text \<open>
  C3. The bulk \<open>update(query, data)\<close> and \<open>remove(query)\<close> are the sequential run
  over the sequence of \<open>findIterator(query)\<close>: each record it yields goes through
  \<open>update(data)\<close>, respectively \<open>remove()\<close>, before the next is pulled. In a run that
  returns the records \<open>rs\<close>, the trace is, for each of them in order, the pull that
  yielded it and then its whole lifecycle (hooks and primitive), and at last the pull
  that found the sequence done; so the hooks are the per-record sequences one after
  the other.
\<close>

theorem bulk_runs_each_record_in_turn:
  "update_s D query data =
     each_in_turn (\<lambda>item. update_m D item data) (traced (findIterator D query)) []
   \<and> remove_s D query = each_in_turn (remove_m D) (traced (findIterator D query)) []
   \<and> (update_s D query data w = (Inr rs, w') \<longrightarrow>
        snd w' = snd w @ concat (map (\<lambda>r. Pull # update_events r) rs) @ [Pull]
        \<and> hooks_of (snd w') = hooks_of (snd w) @
            concat (map (\<lambda>r. [''validate'', ''beforeUpdate'', ''beforeSave'', ''afterSave'',
              ''afterUpdate'']) rs))
   \<and> (remove_s D query w = (Inr rs, w') \<longrightarrow>
        snd w' = snd w @ concat (map (\<lambda>r. Pull # remove_events r) rs) @ [Pull]
        \<and> hooks_of (snd w') = hooks_of (snd w) @
            concat (map (\<lambda>r. [''beforeRemove'', ''afterRemove'']) rs))"
  using update_s_trace [of D query data w rs w'] remove_s_trace [of D query w rs w']
  by (simp add: update_s_each remove_s_each hooks_of_append hooks_of_update_run
      hooks_of_remove_run)


lemmas gen_defs = update_s_def updateIterator_def remove_s_def removeIterator_def find_s_def

lemma update_two_rows:
  "update_s (Model entries_subset) (JObj [(''x'', JNum 1)]) (JObj [(''y'', JNum 2)])
     (reset two_rows) =
   (Inr [0, 1],
    (\<lparr>heap = (\<lambda>r. [])(0 := [(''id'', JNum 1), (''x'', JNum 1), (''y'', JNum 2)],
                       1 := [(''id'', JNum 2), (''x'', JNum 1), (''y'', JNum 2)]),
       nextref = 2,
       store = \<lparr>Model_data = [[(''id'', JNum 1), (''x'', JNum 1), (''y'', JNum 2)],
                               [(''id'', JNum 2), (''x'', JNum 1), (''y'', JNum 2)]],
         Model_hooks = [''validate'', ''beforeUpdate'', ''beforeSave'', ''afterSave'',
           ''afterUpdate'', ''validate'', ''beforeUpdate'', ''beforeSave'', ''afterSave'',
           ''afterUpdate'']\<rparr>\<rparr>,
     Pull # update_events 0 @ Pull # update_events 1 @ [Pull]))"
  by (simp add: two_rows_def gen_defs engine_defs bag_defs Model_defs update_events_def)

lemma remove_two_rows:
  "remove_s (Model entries_subset) (JObj [(''x'', JNum 1)]) (reset two_rows) =
   (Inr [0, 1],
    (\<lparr>heap = (\<lambda>r. [])(0 := [(''id'', JUndef), (''x'', JNum 1)],
                       1 := [(''id'', JUndef), (''x'', JNum 1)]),
       nextref = 2,
       store = \<lparr>Model_data = [],
         Model_hooks = [''beforeRemove'', ''afterRemove'', ''beforeRemove'', ''afterRemove'']\<rparr>\<rparr>,
     Pull # remove_events 0 @ Pull # remove_events 1 @ [Pull]))"
  by (simp add: two_rows_def gen_defs engine_defs bag_defs Model_defs remove_events_def)

theorem bulk_runs_each_record_in_turn_witness:
  "fst (update_s (Model entries_subset) (JObj [(''x'', JNum 1)]) (JObj [(''y'', JNum 2)])
          (reset two_rows)) = Inr [0, 1]
   \<and> snd (snd (update_s (Model entries_subset) (JObj [(''x'', JNum 1)]) (JObj [(''y'', JNum 2)])
          (reset two_rows))) = Pull # update_events 0 @ Pull # update_events 1 @ [Pull]
   \<and> hooks_of (snd (snd (update_s (Model entries_subset) (JObj [(''x'', JNum 1)])
          (JObj [(''y'', JNum 2)]) (reset two_rows)))) =
       [''validate'', ''beforeUpdate'', ''beforeSave'', ''afterSave'', ''afterUpdate'',
        ''validate'', ''beforeUpdate'', ''beforeSave'', ''afterSave'', ''afterUpdate'']
   \<and> fst (remove_s (Model entries_subset) (JObj [(''x'', JNum 1)]) (reset two_rows)) = Inr [0, 1]
   \<and> snd (snd (remove_s (Model entries_subset) (JObj [(''x'', JNum 1)]) (reset two_rows))) =
       Pull # remove_events 0 @ Pull # remove_events 1 @ [Pull]
   \<and> hooks_of (snd (snd (remove_s (Model entries_subset) (JObj [(''x'', JNum 1)])
          (reset two_rows)))) =
       [''beforeRemove'', ''afterRemove'', ''beforeRemove'', ''afterRemove'']"
proof -
  let ?M = "Model entries_subset"
  let ?q = "JObj [(''x'', JNum 1)]"
  let ?d = "JObj [(''y'', JNum 2)]"
  have u: "update_s ?M ?q ?d (reset two_rows) = (Inr [0, 1], snd (update_s ?M ?q ?d (reset two_rows)))"
    by (simp add: update_two_rows)
  have r: "remove_s ?M ?q (reset two_rows) = (Inr [0, 1], snd (remove_s ?M ?q (reset two_rows)))"
    by (simp add: remove_two_rows)
  have t0: "snd (reset two_rows) = []"
    by (simp add: reset_def)
  have mu: "snd (snd (update_s ?M ?q ?d (reset two_rows))) =
          snd (reset two_rows) @ concat (map (\<lambda>r. Pull # update_events r) [0, 1]) @ [Pull]
        \<and> hooks_of (snd (snd (update_s ?M ?q ?d (reset two_rows)))) =
          hooks_of (snd (reset two_rows)) @
            concat (map (\<lambda>r. [''validate'', ''beforeUpdate'', ''beforeSave'', ''afterSave'',
              ''afterUpdate'']) [0 :: nat, 1])"
    using bulk_runs_each_record_in_turn
      [of ?M ?q ?d "reset two_rows" "[0, 1]" "snd (update_s ?M ?q ?d (reset two_rows))"] u
    by blast
  have mr: "snd (snd (remove_s ?M ?q (reset two_rows))) =
          snd (reset two_rows) @ concat (map (\<lambda>r. Pull # remove_events r) [0, 1]) @ [Pull]
        \<and> hooks_of (snd (snd (remove_s ?M ?q (reset two_rows)))) =
          hooks_of (snd (reset two_rows)) @
            concat (map (\<lambda>r. [''beforeRemove'', ''afterRemove'']) [0 :: nat, 1])"
    using bulk_runs_each_record_in_turn
      [of ?M ?q ?d "reset two_rows" "[0, 1]" "snd (remove_s ?M ?q (reset two_rows))"] r
    by blast
  have c1: "fst (update_s ?M ?q ?d (reset two_rows)) = Inr [0, 1]"
    using u by (metis fst_conv)
  have c2: "snd (snd (update_s ?M ?q ?d (reset two_rows))) =
      Pull # update_events 0 @ Pull # update_events 1 @ [Pull]"
    using mu [THEN conjunct1] by (simp add: t0)
  have c3: "hooks_of (snd (snd (update_s ?M ?q ?d (reset two_rows)))) =
       [''validate'', ''beforeUpdate'', ''beforeSave'', ''afterSave'', ''afterUpdate'',
        ''validate'', ''beforeUpdate'', ''beforeSave'', ''afterSave'', ''afterUpdate'']"
    using mu [THEN conjunct2] by (simp add: t0)
  have c4: "fst (remove_s ?M ?q (reset two_rows)) = Inr [0, 1]"
    using r by (metis fst_conv)
  have c5: "snd (snd (remove_s ?M ?q (reset two_rows))) =
      Pull # remove_events 0 @ Pull # remove_events 1 @ [Pull]"
    using mr [THEN conjunct1] by (simp add: t0)
  have c6: "hooks_of (snd (snd (remove_s ?M ?q (reset two_rows)))) =
       [''beforeRemove'', ''afterRemove'', ''beforeRemove'', ''afterRemove'']"
    using mr [THEN conjunct2] by (simp add: t0)
  from c1 c2 c3 c4 c5 c6 show ?thesis by blast
qed

section \<open>Finding\<close>

lemma concat_pulls: "concat (map (\<lambda>r. [Pull]) rs) = replicate (length rs) Pull"
  by (induction rs) auto

lemma find_s_trace:
  assumes "find_s D query w = (Inr rs, w')"
  shows "snd w' = snd w @ replicate (Suc (length rs)) Pull"
proof -
  have "each_in_turn (\<lambda>item w. (Inr item, w)) (traced (findIterator D query)) [] w = (Inr rs, w')"
    using assms by (simp add: find_s_def collect_each_in_turn)
  from each_in_turn_trace [where evs = "\<lambda>_. []", OF _ this]
  have "snd w' = snd w @ concat (map (\<lambda>r. [Pull]) rs) @ [Pull]" by simp
  then show ?thesis
    by (simp add: map_replicate_const replicate_append_same)
qed

lemma collect_extends:
  "collect g acc w = (Inr rs, w') \<Longrightarrow> \<exists>new. rs = acc @ new"
  and "collect_step s acc = (Inr rs, w') \<Longrightarrow> \<exists>new. rs = acc @ new"
proof (induction g and s arbitrary: acc w rs w' and acc rs w')
  case (Gen g)
  from Gen.prems have "collect_step (g w) acc = (Inr rs, w')" by simp
  from Gen.IH [OF _ this] show ?case by auto
next
  case (Done w)
  then show ?case by simp
next
  case (Throw e w)
  then show ?case by simp
next
  case (Yield item w k)
  from Yield.prems have "collect k (acc @ [item]) w = (Inr rs, w')" by simp
  from Yield.IH [OF this] show ?case by auto
qed

lemma find_s_first:
  assumes "find_s D query (m, t) = (Inr rs, w')"
  shows "fst (findOne D query (m, t)) = Inr (case rs of [] \<Rightarrow> None | r # _ \<Rightarrow> Some r)"
proof -
  obtain g where g: "findIterator D query = Gen g" by (cases "findIterator D query")
  show ?thesis
  proof (cases "g m")
    case (Done m')
    then show ?thesis using assms g by (simp add: find_s_def findOne_cases)
  next
    case (Throw e m')
    then show ?thesis using assms g by (simp add: find_s_def)
  next
    case (Yield item m' k)
    with assms g have "collect (traced k) [item] (m', t @ [Pull]) = (Inr rs, w')"
      by (simp add: find_s_def)
    from collect_extends(1) [OF this] obtain new where "rs = item # new" by auto
    then show ?thesis using Yield g by (simp add: findOne_cases)
  qed
qed

text \<open>
  C7. \<open>findOne(query)\<close> pulls the sequence of \<open>findIterator(query)\<close> once: the trace
  gains one pull and nothing else, so no hook; the memory is the one that this single
  \<open>next()\<close> left; the result is the record it yielded, or empty when it found the
  sequence done. Where \<open>find(query)\<close> returns the records \<open>rs\<close> after
  \<open>length rs + 1\<close> pulls, \<open>findOne(query)\<close> returns the first of them, or empty.
\<close>

theorem findOne_pulls_once:
  "snd (findOne D query (m, t)) = (state_of (next_item (findIterator D query) m), t @ [Pull])
   \<and> fst (findOne D query (m, t)) =
       (case next_item (findIterator D query) m of
          Done m' \<Rightarrow> Inr None
        | Throw e m' \<Rightarrow> Inl e
        | Yield model m' k \<Rightarrow> Inr (Some model))
   \<and> (find_s D query (m, t) = (Inr rs, w') \<longrightarrow>
        snd w' = t @ replicate (Suc (length rs)) Pull
        \<and> fst (findOne D query (m, t)) = Inr (case rs of [] \<Rightarrow> None | r # _ \<Rightarrow> Some r))"
  using find_s_trace [of D query "(m, t)" rs w'] find_s_first [of D query m t rs w']
  by (simp add: findOne_cases split: step.splits)

lemma find_two_rows:
  "find_s (Model entries_subset) (JObj [(''x'', JNum 1)]) (reset two_rows) =
   (Inr [0, 1],
    (\<lparr>heap = (\<lambda>r. [])(0 := [(''id'', JNum 1), (''x'', JNum 1)],
                       1 := [(''id'', JNum 2), (''x'', JNum 1)]),
       nextref = 2, store = \<lparr>Model_data = two_rows, Model_hooks = []\<rparr>\<rparr>,
     [Pull, Pull, Pull]))"
  by (simp add: two_rows_def gen_defs engine_defs bag_defs Model_defs)

theorem findOne_pulls_once_witness:
  "find_s (Model entries_subset) (JObj [(''x'', JNum 1)]) (reset two_rows) =
     (Inr [0, 1], snd (find_s (Model entries_subset) (JObj [(''x'', JNum 1)]) (reset two_rows)))
   \<and> snd (snd (find_s (Model entries_subset) (JObj [(''x'', JNum 1)]) (reset two_rows))) =
       [Pull, Pull, Pull]
   \<and> fst (findOne (Model entries_subset) (JObj [(''x'', JNum 1)]) (reset two_rows)) = Inr (Some 0)
   \<and> snd (snd (findOne (Model entries_subset) (JObj [(''x'', JNum 1)]) (reset two_rows))) = [Pull]"
proof -
  let ?M = "Model entries_subset"
  let ?q = "JObj [(''x'', JNum 1)]"
  let ?m = "\<lparr>heap = (\<lambda>r. []), nextref = 0, store = \<lparr>Model_data = two_rows, Model_hooks = []\<rparr>\<rparr>"
  have w: "reset two_rows = (?m, [])"
    by (simp add: reset_def)
  have f: "find_s ?M ?q (?m, []) = (Inr [0, 1], snd (find_s ?M ?q (?m, [])))"
    using find_two_rows by (simp add: w)
  note inst = findOne_pulls_once [of ?M ?q ?m "[]" "[0, 1]" "snd (find_s ?M ?q (?m, []))"]
  have a: "snd (snd (findOne ?M ?q (?m, []))) = [Pull]"
    using inst [THEN conjunct1] by simp
  have b: "snd (snd (find_s ?M ?q (?m, []))) = [] @ replicate (Suc (length [0 :: nat, 1])) Pull"
    and c: "fst (findOne ?M ?q (?m, [])) = Inr (case [0 :: nat, 1] of [] \<Rightarrow> None | r # _ \<Rightarrow> Some r)"
    using inst f by blast+
  have b': "snd (snd (find_s ?M ?q (?m, []))) = [Pull, Pull, Pull]"
    using b by (simp add: numeral_2_eq_2)
  have c': "fst (findOne ?M ?q (?m, [])) = Inr (Some 0)"
    using c by simp
  from f a b' c' show ?thesis unfolding w by blast
qed

section \<open>By id\<close>












section \<open>The default base\<close>

text \<open>
  C9. On \<open>BaseModel\<close> itself, \<open>findIterator(query)\<close> is a sequence whose first
  \<open>next()\<close> throws \<open>NotImplemented\<close>, naming \<open>Model.findIterator\<close>; making the
  sequence runs nothing, and the operations that drain it fail at that first pull.
  \<open>save()\<close> on a New record throws \<open>NotImplemented\<close> naming \<open>model._save\<close>, and on
  a Persisted record \<open>fetch()\<close>, \<open>update()\<close> and \<open>remove()\<close> throw it naming
  \<open>model._fetch\<close>, \<open>model._update\<close> and \<open>model._remove\<close>.
\<close>

theorem default_base_not_implemented:
  "next_item (traced (findIterator BaseModel query)) (m, t) =
     Throw (NotImplemented ''Model.findIterator'') (m, t @ [Pull])
   \<and> find_s BaseModel query (m, t) = (Inl (NotImplemented ''Model.findIterator''), (m, t @ [Pull]))
   \<and> findOne BaseModel query (m, t) = (Inl (NotImplemented ''Model.findIterator''), (m, t @ [Pull]))
   \<and> (isNew this w \<longrightarrow> fst (save BaseModel this w) = Inl (NotImplemented ''model._save''))
   \<and> (\<not> isNew this w \<longrightarrow>
        fst (fetch BaseModel this w) = Inl (NotImplemented ''model._fetch'')
        \<and> fst (update_m BaseModel this data w) = Inl (NotImplemented ''model._update'')
        \<and> fst (remove_m BaseModel this w) = Inl (NotImplemented ''model._remove''))"
  by (cases w)
    (simp add: BaseModel_def find_s_def findOne_def save_def fetch_def update_m_def remove_m_def
      bindE_def emit_def call_def set_m_def returnE_def)


theorem default_base_not_implemented_witness:
  "isNew 0 placeholder
   \<and> fst (save BaseModel 0 placeholder) = Inl (NotImplemented ''model._save'')
   \<and> \<not> isNew 0 placeholder_id
   \<and> fst (fetch BaseModel 0 placeholder_id) = Inl (NotImplemented ''model._fetch'')
   \<and> fst (update_m BaseModel 0 JUndef placeholder_id) = Inl (NotImplemented ''model._update'')
   \<and> fst (remove_m BaseModel 0 placeholder_id) = Inl (NotImplemented ''model._remove'')"
proof -
  have new: "isNew 0 placeholder"
    by (simp add: placeholder_def isNew_def fields_of_def build_def new_record_def bag_defs)
  have persisted: "\<not> isNew 0 placeholder_id"
    by (simp add: placeholder_id_def placeholder_def isNew_def fields_of_def build_def
        new_record_def set_m_def bag_defs)
  from default_base_not_implemented [of JUndef "fst placeholder" "[]" 0 placeholder JUndef] new
  have s: "fst (save BaseModel 0 placeholder) = Inl (NotImplemented ''model._save'')"
    by blast
  from default_base_not_implemented [of JUndef "fst placeholder" "[]" 0 placeholder_id JUndef]
    persisted
  have "fst (fetch BaseModel 0 placeholder_id) = Inl (NotImplemented ''model._fetch'')
      \<and> fst (update_m BaseModel 0 JUndef placeholder_id) = Inl (NotImplemented ''model._update'')
      \<and> fst (remove_m BaseModel 0 placeholder_id) = Inl (NotImplemented ''model._remove'')"
    by blast
  with new persisted s show ?thesis by blast
qed

end
